theory Spec2Isabelle
  imports Complex_Main "HOL-Library.Multiset"
begin

section \<open>Hexagonal planning grid (planning.py)\<close>

text \<open>
  Python floats are read as mathematical reals throughout: rounding, overflow, NaN and
  infinities of IEEE arithmetic are outside this development.  Exceptions are values of
  \<open>py_error\<close> (\<open>GeometryError\<close> stands for whatever the geometry engine raises); a loop
  that does not return is the value \<open>None\<close>.
\<close>

datatype py_error = ZeroDivisionError | ValueError | GeometryError

type_synonym point = "real \<times> real"

text \<open>A bounding box as \<open>total_bounds\<close> delivers it: \<open>bbx[0]\<close>, \<open>bbx[1]\<close>, \<open>bbx[2]\<close>, \<open>bbx[3]\<close>.\<close>

type_synonym bbox = "real \<times> real \<times> real \<times> real"

text \<open>\<open>math.radians\<close>.\<close>

definition radians :: "real \<Rightarrow> real" where
  "radians angle = angle * pi / 180"

text \<open>
  \<open>create_hexagon(l, x, y)\<close>: the coordinate list handed to \<open>Polygon\<close>, one vertex for each
  angle of \<open>range(0, 360, 60)\<close>.
\<close>

definition create_hexagon :: "real \<Rightarrow> real \<Rightarrow> real \<Rightarrow> point list" where
  "create_hexagon l x y =
     map (\<lambda>angle. (x + cos (radians angle) * l, y + sin (radians angle) * l))
       [0, 60, 120, 180, 240, 300]"

text \<open>
  The area of the polygon whose exterior ring is the given coordinate list (the ring is
  closed by repeating its first vertex, as \<open>Polygon\<close> does): the surveyor's formula.
\<close>

fun shoelace :: "point list \<Rightarrow> real" where
  "shoelace (p # q # ps) = (fst p * snd q - fst q * snd p) + shoelace (q # ps)"
| "shoelace _ = 0"

definition polygon_area :: "point list \<Rightarrow> real" where
  "polygon_area ps = (if ps = [] then 0 else \<bar>shoelace (ps @ [hd ps])\<bar> / 2)"

text \<open>
  The inner loop of \<open>create_hexgrid\<close>:
  \<^verbatim>\<open>while c_y < v_end: grid.append((c_x, c_y)); c_y += v_step\<close>
\<close>

partial_function (option) column_loop ::
  "real \<Rightarrow> real \<Rightarrow> real \<Rightarrow> real \<Rightarrow> point list \<Rightarrow> point list option" where
  "column_loop c_x c_y v_end v_step grid =
     (if c_y < v_end
      then column_loop c_x (c_y + v_step) v_end v_step (grid @ [(c_x, c_y)])
      else Some grid)"

text \<open>
  The outer loop of \<open>create_hexgrid\<close>:
  \<^verbatim>\<open>while c_x < h_end: <inner loop>; c_x += h_step; c_y = v_start_array[v_start_idx];
     v_start_idx = (v_start_idx + 1) % 2\<close>
\<close>

partial_function (option) grid_loop ::
  "real \<Rightarrow> real \<Rightarrow> nat \<Rightarrow> real \<Rightarrow> real \<Rightarrow> real \<Rightarrow> real \<Rightarrow> real list \<Rightarrow> point list
     \<Rightarrow> point list option" where
  "grid_loop c_x c_y v_start_idx h_end v_end h_step v_step v_start_array grid =
     (if c_x < h_end
      then Option.bind (column_loop c_x c_y v_end v_step grid)
             (\<lambda>grid'. grid_loop (c_x + h_step) (v_start_array ! v_start_idx)
                        ((v_start_idx + 1) mod 2) h_end v_end h_step v_step
                        v_start_array grid')
      else Some grid)"

text \<open>
  \<open>create_hexgrid(bbx, side)\<close>.  The two divisions raise \<open>ZeroDivisionError\<close> when the
  step is zero; \<open>math.ceil\<close> returns an integer.
\<close>

definition create_hexgrid :: "bbox \<Rightarrow> real \<Rightarrow> (py_error + point list) option" where
  "create_hexgrid bbx side =
     (case bbx of (b0, b1, b2, b3) \<Rightarrow>
        let v_step = sqrt 3 * side;
            h_step = 1.5 * side;
            x_min = min b0 b2;
            x_max = max b0 b2;
            y_min = min b1 b3;
            y_max = max b1 b3
        in if h_step = 0 then Some (Inl ZeroDivisionError)
           else
             let h_skip = \<lceil>x_min / h_step\<rceil> - 1;
                 h_start = real_of_int h_skip * h_step
             in if v_step = 0 then Some (Inl ZeroDivisionError)
                else
                  let v_skip = \<lceil>y_min / v_step\<rceil> - 1;
                      v_start = real_of_int v_skip * v_step;
                      h_end = x_max + h_step;
                      v_end = y_max + v_step;
                      v_start_array =
                        (if v_start - (v_step / 2) < y_min
                         then [v_start + (v_step / 2), v_start]
                         else [v_start - (v_step / 2), v_start]);
                      v_start_idx = nat (\<bar>h_skip\<bar> mod 2);
                      c_x = h_start;
                      c_y = v_start_array ! v_start_idx
                  in map_option Inr
                       (grid_loop c_x c_y ((v_start_idx + 1) mod 2) h_end v_end h_step v_step
                          v_start_array []))"

text \<open>A row of a GeoDataFrame of planning units: its geometry and its \<open>PUID\<close> column.\<close>

record 'g cell =
  geometry :: 'g
  PUID :: int

text \<open>
  The grid-building block of \<open>create_planning_unit_grid\<close> (menu selections 1 and 3 run the
  same statements once the box and the area are known): the edge length, the centers, one
  hexagon for each center, and \<open>PUID = index + 1\<close> over the default index \<open>0 .. N - 1\<close>.
  Prompts, file dialogs and the shapefile written at the end are left out.
\<close>

definition create_planning_unit_grid ::
  "bbox \<Rightarrow> real \<Rightarrow> (py_error + (point list) cell list) option" where
  "create_planning_unit_grid box Area =
     (let edge = sqrt (Area\<^sup>2 / (3 / 2 * sqrt 3))
      in case create_hexgrid box edge of
           None \<Rightarrow> None
         | Some (Inl e) \<Rightarrow> Some (Inl e)
         | Some (Inr hex_centers) \<Rightarrow>
             let hexagons = map (\<lambda>center. create_hexagon edge (fst center) (snd center))
                              hex_centers
             in Some (Inr (map (\<lambda>(index, h). \<lparr>geometry = h, PUID = int index + 1\<rparr>)
                            (enumerate 0 hexagons))))"

subsection \<open>Closed forms of the two loops\<close>

text \<open>The centers one run of the inner loop appends.\<close>

definition column_pts :: "real \<Rightarrow> real \<Rightarrow> real \<Rightarrow> real \<Rightarrow> point list" where
  "column_pts c_x c_y v_end v_step =
     map (\<lambda>k. (c_x, c_y + real k * v_step)) [0..<nat \<lceil>(v_end - c_y) / v_step\<rceil>]"

text \<open>The centers \<open>m\<close> rounds of the outer loop append.\<close>

fun columns :: "nat \<Rightarrow> real \<Rightarrow> real \<Rightarrow> nat \<Rightarrow> real \<Rightarrow> real \<Rightarrow> real \<Rightarrow> real list \<Rightarrow> point list" where
  "columns 0 c_x c_y idx v_end h_step v_step arr = []"
| "columns (Suc m) c_x c_y idx v_end h_step v_step arr =
     column_pts c_x c_y v_end v_step
       @ columns m (c_x + h_step) (arr ! idx) ((idx + 1) mod 2) v_end h_step v_step arr"

text \<open>The order in which nested loops over ascending x, then ascending y, visit points.\<close>

definition loop_order :: "point \<Rightarrow> point \<Rightarrow> bool" where
  "loop_order p q = (fst p < fst q \<or> (fst p = fst q \<and> snd p < snd q))"

text \<open>The first center a run of \<open>create_hexgrid\<close> emits, when it returns a non-empty list.\<close>

definition first_center :: "(py_error + point list) option \<Rightarrow> point option" where
  "first_center r = (case r of Some (Inr (p # ps)) \<Rightarrow> Some p | _ \<Rightarrow> None)"

text \<open>
  The starting column in the specification's words: the largest multiple of \<open>h_step\<close> at
  or below \<open>x_min\<close>, minus one step.
\<close>

definition spec_h_start :: "real \<Rightarrow> real \<Rightarrow> real" where
  "spec_h_start x_min h_step = real_of_int \<lfloor>x_min / h_step\<rfloor> * h_step - h_step"

section \<open>Overlap of planning units and conservation features (planning.py)\<close>

text \<open>
  The three classes of geometry types that \<open>gpd.overlay\<close> tells apart: (multi)polygons,
  lines and points.
\<close>

datatype geom_type = Polygons | Lines | Points

text \<open>
  The geometry engine behind geopandas and shapely is not part of the repository; its
  operations are parameters of the model.  \<open>intersection\<close> returns \<open>None\<close> where the engine
  raises (a malformed polygon, say); \<open>geo_type\<close> is the class of \<open>geom_type\<close>.
\<close>

record 'g geo =
  geo_intersects :: "'g \<Rightarrow> 'g \<Rightarrow> bool"
  geo_intersection :: "'g \<Rightarrow> 'g \<Rightarrow> 'g option"
  geo_area :: "'g \<Rightarrow> real"
  geo_convex_hull :: "'g \<Rightarrow> 'g"
  geo_unary_union :: "'g list \<Rightarrow> 'g"
  geo_type :: "'g \<Rightarrow> geom_type"

text \<open>A row of a conservation layer: its geometry and its \<open>ID\<close> column.\<close>

record 'g feature =
  fgeometry :: 'g
  ID :: int

text \<open>A row of an intersection frame: the columns of both inputs, the common geometry and
  the \<open>AMOUNT\<close> column that \<open>calculate\<close> adds.\<close>

record 'g overlap =
  oPUID :: int
  oID :: int
  ogeometry :: 'g
  AMOUNT :: int

text \<open>\<open>Series.round()\<close> followed by \<open>astype(int)\<close>: to the nearest integer, a tie to the even
  neighbour.\<close>

definition py_round :: "real \<Rightarrow> int" where
  "py_round x =
     (let f = \<lfloor>x\<rfloor>
      in if x - real_of_int f < 1 / 2 then f
         else if 1 / 2 < x - real_of_int f then f + 1
         else if even f then f else f + 1)"

text \<open>
  Modelled from the spec: \<open>gpd.clip\<close> belongs to geopandas, which is not under src.  The
  spec has it restrict the partition to the cells whose geometry intersects the hull mask;
  the library moreover cuts every kept cell down to the mask, merged from the mask series
  with \<open>unary_union\<close>.  Rows are treated one by one and listed in the order of the
  input; the order in which the library's spatial index returns them is not modelled, and
  no statement below depends on the order of rows inside a frame.
\<close>

fun clip :: "'g geo \<Rightarrow> 'g cell list \<Rightarrow> 'g list \<Rightarrow> py_error + 'g cell list" where
  "clip lib [] hulls = Inr []"
| "clip lib (c # cs) hulls =
     (if geo_intersects lib (geometry c) (geo_unary_union lib hulls)
      then (case geo_intersection lib (geometry c) (geo_unary_union lib hulls) of
              None \<Rightarrow> Inl GeometryError
            | Some g \<Rightarrow>
                (case clip lib cs hulls of
                   Inl e \<Rightarrow> Inl e
                 | Inr cs' \<Rightarrow> Inr (c\<lparr>geometry := g\<rparr> # cs')))
      else clip lib cs hulls)"

text \<open>
  Modelled from the spec: \<open>gpd.overlay(..., how="intersection")\<close> belongs to geopandas, which
  is not under src.  Its pairing step: for every cell/feature pair whose geometries
  intersect, one row with the geometric intersection; feature by feature, and cell by cell
  for each feature.
\<close>

fun intersect_feature :: "'g geo \<Rightarrow> 'g cell list \<Rightarrow> 'g feature \<Rightarrow> py_error + 'g overlap list" where
  "intersect_feature lib [] f = Inr []"
| "intersect_feature lib (c # cs) f =
     (if geo_intersects lib (geometry c) (fgeometry f)
      then (case geo_intersection lib (geometry c) (fgeometry f) of
              None \<Rightarrow> Inl GeometryError
            | Some g \<Rightarrow>
                (case intersect_feature lib cs f of
                   Inl e \<Rightarrow> Inl e
                 | Inr rs \<Rightarrow> Inr (\<lparr>oPUID = PUID c, oID = ID f, ogeometry = g, AMOUNT = 0\<rparr> # rs)))
      else intersect_feature lib cs f)"

fun intersect_rows :: "'g geo \<Rightarrow> 'g cell list \<Rightarrow> 'g feature list \<Rightarrow> py_error + 'g overlap list" where
  "intersect_rows lib df1 [] = Inr []"
| "intersect_rows lib df1 (f # fs) =
     (case intersect_feature lib df1 f of
        Inl e \<Rightarrow> Inl e
      | Inr rs \<Rightarrow>
          (case intersect_rows lib df1 fs of
             Inl e \<Rightarrow> Inl e
           | Inr rs' \<Rightarrow> Inr (rs @ rs')))"

text \<open>More than one class of geometry types among the rows of a frame.\<close>

definition mixed :: "geom_type list \<Rightarrow> bool" where
  "mixed ts = (\<exists>a \<in> set ts. \<exists>b \<in> set ts. a \<noteq> b)"

text \<open>
  Modelled from the spec: \<open>gpd.overlay\<close> as a whole, with the defaults the call leaves in
  force.  It refuses a frame with mixed geometry types (\<open>NotImplementedError\<close>, here
  \<open>GeometryError\<close> like every exception of the geometry libraries), returns no row for an
  empty first frame, and with \<open>keep_geom_type\<close> keeps of the intersections only those of
  the geometry type of the first frame.
\<close>

definition overlay :: "'g geo \<Rightarrow> 'g cell list \<Rightarrow> 'g feature list \<Rightarrow> py_error + 'g overlap list" where
  "overlay lib df1 df2 =
     (if mixed (map (\<lambda>c. geo_type lib (geometry c)) df1)
         \<or> mixed (map (\<lambda>f. geo_type lib (fgeometry f)) df2)
      then Inl GeometryError
      else (case df1 of
              [] \<Rightarrow> Inr []
            | c0 # cs \<Rightarrow>
                (case intersect_rows lib df1 df2 of
                   Inl e \<Rightarrow> Inl e
                 | Inr rows \<Rightarrow>
                     Inr (filter (\<lambda>r. geo_type lib (ogeometry r) = geo_type lib (geometry c0))
                            rows))))"

text \<open>
  The two assignments of \<open>calculate\<close>:
  \<^verbatim>\<open>intersection[AMOUNT] = intersection.area\<close> and
  \<^verbatim>\<open>intersection[AMOUNT] = intersection[AMOUNT].round().astype(int)\<close>.
  The cast is to 64-bit integers: a rounded area outside their range comes out as the
  least of them.
\<close>

definition astype_int64 :: "int \<Rightarrow> int" where
  "astype_int64 n = (if - (2 ^ 63) \<le> n \<and> n < 2 ^ 63 then n else - (2 ^ 63))"

definition set_amount :: "'g geo \<Rightarrow> 'g overlap list \<Rightarrow> 'g overlap list" where
  "set_amount lib rows =
     map (\<lambda>r. r\<lparr>AMOUNT := astype_int64 (py_round (geo_area lib (ogeometry r)))\<rparr>) rows"

text \<open>
  \<open>calculate(planning_grid, cons_layers)\<close>: the loop over the layers, with the warnings
  printed so far and the frames appended so far.  No statement of the function catches an
  exception, so a failing clip or overlay ends the call.
\<close>

fun calculate_loop ::
  "'g geo \<Rightarrow> 'g cell list \<Rightarrow> 'g feature list list \<Rightarrow> string list \<Rightarrow> 'g overlap list list
     \<Rightarrow> string list \<times> (py_error + 'g overlap list list)" where
  "calculate_loop lib planning_grid [] warnings intersections = (warnings, Inr intersections)"
| "calculate_loop lib planning_grid (layer # rest) warnings intersections =
     (if layer \<noteq> []
      then (case clip lib planning_grid (map (\<lambda>f. geo_convex_hull lib (fgeometry f)) layer) of
              Inl e \<Rightarrow> (warnings, Inl e)
            | Inr clipped_grid \<Rightarrow>
                (case overlay lib clipped_grid layer of
                   Inl e \<Rightarrow> (warnings, Inl e)
                 | Inr intersection \<Rightarrow>
                     calculate_loop lib planning_grid rest warnings
                       (intersections @ [set_amount lib intersection])))
      else calculate_loop lib planning_grid rest
             (warnings @ [''Skipping empty conservation layer.'']) intersections)"

definition calculate ::
  "'g geo \<Rightarrow> 'g cell list \<Rightarrow> 'g feature list list
     \<Rightarrow> string list \<times> (py_error + 'g overlap list list)" where
  "calculate lib planning_grid cons_layers = calculate_loop lib planning_grid cons_layers [] []"

text \<open>
  \<open>np.array_split(planning_grid, CORES)\<close>: \<open>CORES\<close> contiguous sections, the first
  \<open>n mod CORES\<close> of them one row longer; no section count raises \<open>ValueError\<close>.
\<close>

fun sections :: "nat list \<Rightarrow> 'a list \<Rightarrow> 'a list list" where
  "sections [] xs = []"
| "sections (n # ns) xs = take n xs # sections ns (drop n xs)"

definition array_split :: "'a list \<Rightarrow> nat \<Rightarrow> py_error + 'a list list" where
  "array_split xs k =
     (if k = 0 then Inl ValueError
      else Inr (sections (replicate (length xs mod k) (length xs div k + 1)
                            @ replicate (k - length xs mod k) (length xs div k)) xs))"

text \<open>
  The loop over \<open>pool.imap_unordered\<close>: results arrive in completion order and each is
  appended with \<open>extend\<close>; the exception of a worker is raised again in the caller when its
  result is due.
\<close>

fun extend_results ::
  "(py_error + 'a list) list \<Rightarrow> 'a list \<Rightarrow> py_error + 'a list" where
  "extend_results [] intersections = Inr intersections"
| "extend_results (Inl e # rs) intersections = Inl e"
| "extend_results (Inr result # rs) intersections = extend_results rs (intersections @ result)"

text \<open>
  \<open>calculate_overlap(planning_grid, cons_layers)\<close>.  The global \<open>CORES\<close> and the order in
  which the workers complete (\<open>order\<close>, the section numbers in their order of arrival) are
  arguments.  The first component collects the warnings printed; progress messages and
  the timer are left out.
\<close>

definition calculate_overlap ::
  "'g geo \<Rightarrow> nat \<Rightarrow> nat list \<Rightarrow> 'g cell list \<Rightarrow> 'g feature list list
     \<Rightarrow> string list \<times> (py_error + 'g overlap list list)" where
  "calculate_overlap lib CORES order planning_grid cons_layers =
     (if length cons_layers = 0
      then ([''No conservation feature layers loaded.''], Inr [])
      else if planning_grid = []
      then ([''No planning unit grid loaded.''], Inr [])
      else
        (case array_split planning_grid CORES of
           Inl e \<Rightarrow> ([], Inl e)
         | Inr planning_grid_divisions \<Rightarrow>
             let results = map (\<lambda>i. calculate lib (planning_grid_divisions ! i) cons_layers)
                             order
             in (concat (map fst results), extend_results (map snd results) [])))"

subsection \<open>Vocabulary of the claims\<close>


text \<open>One (partition, layer) unit of work of \<open>calculate\<close>, for a layer with features.\<close>

definition unit_of_work :: "'g geo \<Rightarrow> 'g cell list \<Rightarrow> 'g feature list \<Rightarrow> py_error + 'g overlap list" where
  "unit_of_work lib planning_grid layer =
     (case clip lib planning_grid (map (\<lambda>f. geo_convex_hull lib (fgeometry f)) layer) of
        Inl e \<Rightarrow> Inl e
      | Inr clipped_grid \<Rightarrow>
          (case overlay lib clipped_grid layer of
             Inl e \<Rightarrow> Inl e
           | Inr intersection \<Rightarrow> Inr (set_amount lib intersection)))"

text \<open>The same unit without the hull pre-filter: every cell against every feature.\<close>

definition direct_unit :: "'g geo \<Rightarrow> 'g cell list \<Rightarrow> 'g feature list \<Rightarrow> py_error + 'g overlap list" where
  "direct_unit lib planning_grid layer =
     (case overlay lib planning_grid layer of
        Inl e \<Rightarrow> Inl e
      | Inr intersection \<Rightarrow> Inr (set_amount lib intersection))"

subsection \<open>A small geometry to run the engine on\<close>

text \<open>
  Closed axis-parallel rectangles with integer corners \<open>x0 y0 x1 y1\<close>, and a malformed
  geometry on which the engine's set operations fail.  Two rectangles that share only an
  edge or a corner intersect in a rectangle of area 0: a line or a point.
\<close>

datatype shape = Box int int int int | Malformed

fun box_intersects :: "shape \<Rightarrow> shape \<Rightarrow> bool" where
  "box_intersects (Box a0 b0 a1 b1) (Box c0 d0 c1 d1) =
     (max a0 c0 \<le> min a1 c1 \<and> max b0 d0 \<le> min b1 d1)"
| "box_intersects _ _ = True"

fun box_intersection :: "shape \<Rightarrow> shape \<Rightarrow> shape option" where
  "box_intersection (Box a0 b0 a1 b1) (Box c0 d0 c1 d1) =
     Some (Box (max a0 c0) (max b0 d0) (min a1 c1) (min b1 d1))"
| "box_intersection _ _ = None"

fun box_area :: "shape \<Rightarrow> real" where
  "box_area (Box a0 b0 a1 b1) = real_of_int ((a1 - a0) * (b1 - b0))"
| "box_area Malformed = 0"

fun box_hull2 :: "shape \<Rightarrow> shape \<Rightarrow> shape" where
  "box_hull2 (Box a0 b0 a1 b1) (Box c0 d0 c1 d1) =
     Box (min a0 c0) (min b0 d0) (max a1 c1) (max b1 d1)"
| "box_hull2 _ _ = Malformed"

fun box_union :: "shape list \<Rightarrow> shape" where
  "box_union [] = Malformed"
| "box_union [s] = s"
| "box_union (s # ss) = box_hull2 s (box_union ss)"

fun box_type :: "shape \<Rightarrow> geom_type" where
  "box_type (Box a0 b0 a1 b1) =
     (if a0 < a1 \<and> b0 < b1 then Polygons else if a0 < a1 \<or> b0 < b1 then Lines else Points)"
| "box_type Malformed = Polygons"

definition box_geo :: "shape geo" where
  "box_geo = \<lparr>geo_intersects = box_intersects, geo_intersection = box_intersection, geo_area = box_area,
              geo_convex_hull = (\<lambda>s. s), geo_unary_union = box_union, geo_type = box_type\<rparr>"

subsection \<open>Auxiliary notions for the overlap engine\<close>


text \<open>The frames of the layers with features, for one partition, or the first exception.\<close>

fun units :: "'g geo \<Rightarrow> 'g cell list \<Rightarrow> 'g feature list list \<Rightarrow> py_error + 'g overlap list list" where
  "units lib planning_grid [] = Inr []"
| "units lib planning_grid (layer # rest) =
     (if layer \<noteq> []
      then (case unit_of_work lib planning_grid layer of
              Inl e \<Rightarrow> Inl e
            | Inr frame \<Rightarrow>
                (case units lib planning_grid rest of
                   Inl e \<Rightarrow> Inl e
                 | Inr frames \<Rightarrow> Inr (frame # frames)))
      else units lib planning_grid rest)"





section \<open>Properties of the grid builder\<close>


lemma column_pts_step:
  assumes "0 < v_step" "c_y < v_end"
  shows "column_pts c_x c_y v_end v_step = (c_x, c_y) # column_pts c_x (c_y + v_step) v_end v_step"
proof -
  let ?n = "nat \<lceil>(v_end - (c_y + v_step)) / v_step\<rceil>"
  have q: "(v_end - c_y) / v_step = (v_end - (c_y + v_step)) / v_step + 1"
    using assms by (simp add: field_simps)
  have pos: "0 < (v_end - c_y) / v_step" using assms by simp
  have "\<lceil>(v_end - c_y) / v_step\<rceil> = \<lceil>(v_end - (c_y + v_step)) / v_step\<rceil> + 1"
    by (subst q) simp
  moreover have "0 < \<lceil>(v_end - c_y) / v_step\<rceil>" using pos by simp
  ultimately have n: "nat \<lceil>(v_end - c_y) / v_step\<rceil> = Suc ?n" by linarith
  have "map (\<lambda>k. (c_x, c_y + real k * v_step)) [0..<Suc ?n]
        = (c_x, c_y) # map (\<lambda>k. (c_x, c_y + v_step + real k * v_step)) [0..<?n]"
    by (simp add: map_upt_Suc algebra_simps del: upt_Suc)
  then show ?thesis by (simp add: column_pts_def n del: upt_Suc)
qed

lemma column_pts_done:
  assumes "0 < v_step" "\<not> c_y < v_end"
  shows "column_pts c_x c_y v_end v_step = []"
proof -
  have "(v_end - c_y) / v_step \<le> 0" using assms by (simp add: field_simps)
  then have "\<lceil>(v_end - c_y) / v_step\<rceil> \<le> 0" by (simp add: ceiling_le_iff)
  then show ?thesis by (simp add: column_pts_def)
qed

lemma column_loop_eq:
  assumes "0 < v_step"
  shows "column_loop c_x c_y v_end v_step grid = Some (grid @ column_pts c_x c_y v_end v_step)"
proof (induction "nat \<lceil>(v_end - c_y) / v_step\<rceil>" arbitrary: c_y grid)
  case 0
  then have "\<lceil>(v_end - c_y) / v_step\<rceil> \<le> 0" by simp
  then have "(v_end - c_y) / v_step \<le> 0" by (simp add: ceiling_le_iff)
  then have ge: "\<not> c_y < v_end" using assms by (simp add: field_simps)
  show ?case using ge column_pts_done[OF assms ge] by (subst column_loop.simps) simp
next
  case (Suc n)
  have lt: "c_y < v_end"
  proof (rule ccontr)
    assume "\<not> c_y < v_end"
    then have "column_pts c_x c_y v_end v_step = []" by (rule column_pts_done[OF assms])
    with Suc(2) show False by (simp add: column_pts_def)
  qed
  have st: "column_pts c_x c_y v_end v_step = (c_x, c_y) # column_pts c_x (c_y + v_step) v_end v_step"
    by (rule column_pts_step[OF assms lt])
  have "Suc n = length (column_pts c_x c_y v_end v_step)" using Suc(2) by (simp add: column_pts_def)
  also have "\<dots> = Suc (length (column_pts c_x (c_y + v_step) v_end v_step))" by (simp add: st)
  finally have "n = nat \<lceil>(v_end - (c_y + v_step)) / v_step\<rceil>" by (simp add: column_pts_def)
  from Suc(1)[OF this]
  have "column_loop c_x (c_y + v_step) v_end v_step (grid @ [(c_x, c_y)])
        = Some ((grid @ [(c_x, c_y)]) @ column_pts c_x (c_y + v_step) v_end v_step)" .
  then show ?case using lt st by (subst column_loop.simps) simp
qed

lemma grid_loop_eq:
  assumes "0 < h_step" "0 < v_step"
  shows "grid_loop c_x c_y idx h_end v_end h_step v_step arr grid
         = Some (grid @ columns (nat \<lceil>(h_end - c_x) / h_step\<rceil>) c_x c_y idx v_end h_step v_step arr)"
proof (induction "nat \<lceil>(h_end - c_x) / h_step\<rceil>" arbitrary: c_x c_y idx grid)
  case 0
  then have "\<lceil>(h_end - c_x) / h_step\<rceil> \<le> 0" by simp
  then have "(h_end - c_x) / h_step \<le> 0" by (simp add: ceiling_le_iff)
  then have ge: "\<not> c_x < h_end" using assms by (simp add: field_simps)
  show ?case using ge 0 by (subst grid_loop.simps) simp
next
  case (Suc n)
  have lt: "c_x < h_end"
  proof (rule ccontr)
    assume "\<not> c_x < h_end"
    then have "(h_end - c_x) / h_step \<le> 0" using assms by (simp add: field_simps)
    then have "\<lceil>(h_end - c_x) / h_step\<rceil> \<le> 0" by (simp add: ceiling_le_iff)
    with Suc(2) show False by simp
  qed
  have q: "(h_end - c_x) / h_step = (h_end - (c_x + h_step)) / h_step + 1"
    using assms by (simp add: field_simps)
  have "\<lceil>(h_end - c_x) / h_step\<rceil> = \<lceil>(h_end - (c_x + h_step)) / h_step\<rceil> + 1"
    by (subst q) simp
  with Suc(2) have n: "n = nat \<lceil>(h_end - (c_x + h_step)) / h_step\<rceil>" by linarith
  note ih = Suc(1)[OF n]
  show ?case
    using lt
    by (subst grid_loop.simps) (simp add: column_loop_eq[OF assms(2)] ih Suc(2)[symmetric] n[symmetric])
qed


lemma column_pts_fst: "p \<in> set (column_pts c_x c_y v_end v_step) \<Longrightarrow> fst p = c_x"
  by (auto simp: column_pts_def)

lemma column_pts_sorted:
  assumes "0 < v_step"
  shows "sorted_wrt loop_order (column_pts c_x c_y v_end v_step)"
  unfolding sorted_wrt_iff_nth_less
proof (intro allI impI)
  fix i j
  assume ij: "i < j" and j: "j < length (column_pts c_x c_y v_end v_step)"
  then have "real i * v_step < real j * v_step" using assms by simp
  then show "loop_order (column_pts c_x c_y v_end v_step ! i) (column_pts c_x c_y v_end v_step ! j)"
    using ij j by (simp add: column_pts_def loop_order_def)
qed

lemma columns_fst_ge:
  assumes "0 < h_step"
  shows "p \<in> set (columns m c_x c_y idx v_end h_step v_step arr) \<Longrightarrow> c_x \<le> fst p"
proof (induction m arbitrary: c_x c_y idx)
  case 0
  then show ?case by simp
next
  case (Suc m)
  from Suc.prems consider
      (col) "p \<in> set (column_pts c_x c_y v_end v_step)"
    | (rest) "p \<in> set (columns m (c_x + h_step) (arr ! idx) ((idx + 1) mod 2) v_end h_step v_step arr)"
    by auto
  then show ?case
  proof cases
    case col
    then show ?thesis by (simp add: column_pts_fst)
  next
    case rest
    from Suc.IH[OF rest] assms show ?thesis by simp
  qed
qed

lemma columns_sorted:
  assumes "0 < h_step" "0 < v_step"
  shows "sorted_wrt loop_order (columns m c_x c_y idx v_end h_step v_step arr)"
proof (induction m arbitrary: c_x c_y idx)
  case 0
  show ?case by simp
next
  case (Suc m)
  have cross: "loop_order p q"
    if "p \<in> set (column_pts c_x c_y v_end v_step)"
      and "q \<in> set (columns m (c_x + h_step) (arr ! idx) ((idx + 1) mod 2) v_end h_step v_step arr)"
    for p q
  proof -
    have "fst p = c_x" using that(1) by (rule column_pts_fst)
    moreover have "c_x + h_step \<le> fst q" using that(2) by (rule columns_fst_ge[OF assms(1)])
    ultimately show ?thesis using assms(1) by (simp add: loop_order_def)
  qed
  show ?case
    using column_pts_sorted[OF assms(2)] Suc.IH cross
    by (simp add: sorted_wrt_append)
qed

lemma columns_hd:
  assumes "0 < h_step" "0 < v_step" "c_x < h_end" "c_y < v_end"
  shows "columns (nat \<lceil>(h_end - c_x) / h_step\<rceil>) c_x c_y idx v_end h_step v_step arr \<noteq> []
       \<and> hd (columns (nat \<lceil>(h_end - c_x) / h_step\<rceil>) c_x c_y idx v_end h_step v_step arr) = (c_x, c_y)"
proof -
  have "0 < (h_end - c_x) / h_step" using assms by simp
  then have "0 < \<lceil>(h_end - c_x) / h_step\<rceil>" by simp
  then obtain m where m: "nat \<lceil>(h_end - c_x) / h_step\<rceil> = Suc m"
    by (cases "nat \<lceil>(h_end - c_x) / h_step\<rceil>") auto
  show ?thesis
    by (simp add: m column_pts_step[OF assms(2,4)])
qed

text \<open>create_hexgrid for a positive side\<close>

lemma create_hexgrid_pos:
  fixes b0 b1 b2 b3 side :: real
  assumes "0 < side"
  defines "v_step \<equiv> sqrt 3 * side"
    and "h_step \<equiv> 1.5 * side"
  defines "h_skip \<equiv> \<lceil>min b0 b2 / h_step\<rceil> - 1"
    and "v_start \<equiv> real_of_int (\<lceil>min b1 b3 / v_step\<rceil> - 1) * v_step"
  defines "arr \<equiv> [v_start + v_step / 2, v_start]"
  shows "create_hexgrid (b0, b1, b2, b3) side =
           Some (Inr (columns (nat \<lceil>(max b0 b2 + h_step - real_of_int h_skip * h_step) / h_step\<rceil>)
                        (real_of_int h_skip * h_step) (arr ! nat (\<bar>h_skip\<bar> mod 2))
                        ((nat (\<bar>h_skip\<bar> mod 2) + 1) mod 2) (max b1 b3 + v_step) h_step v_step arr))"
proof -
  have hp: "0 < h_step" and vp: "0 < v_step" using assms(1) by (simp_all add: h_step_def v_step_def)
  have "real_of_int (\<lceil>min b1 b3 / v_step\<rceil> - 1) < min b1 b3 / v_step" by linarith
  then have "v_start < min b1 b3" unfolding v_start_def using vp by (simp only: pos_less_divide_eq)
  then have br: "v_start - v_step / 2 < min b1 b3" using vp by linarith
  have nz: "1.5 * side \<noteq> 0" "sqrt 3 * side \<noteq> 0" using assms(1) by simp_all
  have hp': "0 < 1.5 * side" and vp': "0 < sqrt 3 * side" using assms(1) by simp_all
  note br' = br[unfolded v_start_def v_step_def]
  show ?thesis
    unfolding create_hexgrid_def h_step_def v_step_def h_skip_def v_start_def arr_def
    by (simp only: Let_def prod.case nz if_False br' if_True grid_loop_eq[OF hp' vp']
          option.map append_Nil)
qed


lemma hexagon_trig:
  "cos (radians 0) = 1" "sin (radians 0) = 0"
  "cos (radians 60) = 1 / 2" "sin (radians 60) = sqrt 3 / 2"
  "cos (radians 120) = - 1 / 2" "sin (radians 120) = sqrt 3 / 2"
  "cos (radians 180) = - 1" "sin (radians 180) = 0"
  "cos (radians 240) = - 1 / 2" "sin (radians 240) = - sqrt 3 / 2"
  "cos (radians 300) = 1 / 2" "sin (radians 300) = - sqrt 3 / 2"
proof -
  have r: "radians 0 = 0" "radians 60 = pi / 3" "radians 120 = pi - pi / 3" "radians 180 = pi"
    "radians 240 = pi + pi / 3" "radians 300 = 2 * pi - pi / 3"
    by (simp_all add: radians_def)
  show "cos (radians 0) = 1" "sin (radians 0) = 0"
    "cos (radians 60) = 1 / 2" "sin (radians 60) = sqrt 3 / 2"
    "cos (radians 120) = - 1 / 2" "sin (radians 120) = sqrt 3 / 2"
    "cos (radians 180) = - 1" "sin (radians 180) = 0"
    "cos (radians 240) = - 1 / 2" "sin (radians 240) = - sqrt 3 / 2"
    "cos (radians 300) = 1 / 2" "sin (radians 300) = - sqrt 3 / 2"
    unfolding r
    by (simp_all only: cos_zero sin_zero cos_pi sin_pi cos_pi_minus sin_pi_minus
          cos_periodic_pi2 sin_periodic_pi2 cos_2pi_minus sin_2pi_minus cos_60 sin_60
          minus_divide_left)
qed

lemma create_hexagon_vertices:
  "create_hexagon l x y =
     [(x + l, y), (x + l / 2, y + sqrt 3 / 2 * l), (x - l / 2, y + sqrt 3 / 2 * l),
      (x - l, y), (x - l / 2, y - sqrt 3 / 2 * l), (x + l / 2, y - sqrt 3 / 2 * l)]"
  by (simp add: create_hexagon_def hexagon_trig)

lemma create_hexagon_length: "length (create_hexagon l x y) = 6"
  by (simp add: create_hexagon_def)

lemma create_hexagon_area: "polygon_area (create_hexagon l x y) = 3 * sqrt 3 / 2 * l\<^sup>2"
proof -
  have "shoelace (create_hexagon l x y @ [hd (create_hexagon l x y)]) = 3 * sqrt 3 * l\<^sup>2"
    by (simp add: create_hexagon_vertices power2_eq_square algebra_simps)
  moreover have "0 \<le> 3 * sqrt 3 * l\<^sup>2" by simp
  ultimately show ?thesis by (simp add: polygon_area_def create_hexagon_vertices)
qed

lemma edge_squared: "(sqrt (Area\<^sup>2 / (3 / 2 * sqrt 3)))\<^sup>2 = Area\<^sup>2 / (3 / 2 * sqrt 3)"
  by simp

lemma edge_area: "3 * sqrt 3 / 2 * (sqrt (Area\<^sup>2 / (3 / 2 * sqrt 3)))\<^sup>2 = Area\<^sup>2"
  by (simp only: edge_squared) simp

lemma edge_pos: "Area \<noteq> 0 \<Longrightarrow> 0 < sqrt (Area\<^sup>2 / (3 / 2 * sqrt 3))"
  by simp

lemma edge_zero: "sqrt ((0::real)\<^sup>2 / (3 / 2 * sqrt 3)) = 0"
  by simp

lemma create_hexgrid_returns:
  assumes "0 < side"
  shows "\<exists>centers. create_hexgrid bbx side = Some (Inr centers) \<and> sorted_wrt loop_order centers"
proof -
  obtain b0 b1 b2 b3 where b: "bbx = (b0, b1, b2, b3)" by (cases bbx) auto
  have hp: "0 < 1.5 * side" and vp: "0 < sqrt 3 * side" using assms by simp_all
  show ?thesis
    unfolding b create_hexgrid_pos[OF assms]
    using columns_sorted[OF hp vp] by simp
qed

lemma create_hexgrid_zero: "create_hexgrid bbx 0 = Some (Inl ZeroDivisionError)"
  by (cases bbx) (simp add: create_hexgrid_def)

lemma enumerate_cells:
  "map (\<lambda>(index, h). \<lparr>geometry = h, PUID = int index + 1\<rparr>) (enumerate 0 (map f cs))
   = map (\<lambda>i. \<lparr>geometry = f (cs ! i), PUID = int i + 1\<rparr>) [0..<length cs]"
  by (rule nth_equalityI) (simp_all add: nth_enumerate_eq)

lemma create_planning_unit_grid_returns:
  assumes "create_hexgrid box (sqrt (Area\<^sup>2 / (3 / 2 * sqrt 3))) = Some (Inr centers)"
  shows "create_planning_unit_grid box Area =
           Some (Inr (map (\<lambda>i. \<lparr>geometry = create_hexagon (sqrt (Area\<^sup>2 / (3 / 2 * sqrt 3)))
                                              (fst (centers ! i)) (snd (centers ! i)),
                                  PUID = int i + 1\<rparr>) [0..<length centers]))"
  unfolding create_planning_unit_grid_def Let_def assms
  by (simp only: option.case sum.case enumerate_cells)

lemma create_planning_unit_grid_cases:
  assumes "create_planning_unit_grid box Area = Some (Inr grid)"
  obtains centers where "create_hexgrid box (sqrt (Area\<^sup>2 / (3 / 2 * sqrt 3))) = Some (Inr centers)"
    and "grid = map (\<lambda>i. \<lparr>geometry = create_hexagon (sqrt (Area\<^sup>2 / (3 / 2 * sqrt 3)))
                                              (fst (centers ! i)) (snd (centers ! i)),
                                  PUID = int i + 1\<rparr>) [0..<length centers]"
proof (cases "create_hexgrid box (sqrt (Area\<^sup>2 / (3 / 2 * sqrt 3)))")
  case None
  with assms show ?thesis by (simp add: create_planning_unit_grid_def Let_def)
next
  case (Some r)
  show ?thesis
  proof (cases r)
    case (Inl e)
    with Some assms show ?thesis by (simp add: create_planning_unit_grid_def Let_def)
  next
    case (Inr centers)
    with Some have c: "create_hexgrid box (sqrt (Area\<^sup>2 / (3 / 2 * sqrt 3))) = Some (Inr centers)" by simp
    from create_planning_unit_grid_returns[OF c] assms that[OF c] show ?thesis by simp
  qed
qed

lemma puid_upto: "map (\<lambda>i. int i + 1) [0..<n] = [1..int n]"
  by (rule nth_equalityI) simp_all


lemma abs_parity: "nat (\<bar>k\<bar> mod 2) = (if even k then 0 else 1)" for k :: int
proof -
  have "even \<bar>k\<bar> = even k" by simp
  then show ?thesis
    by (metis even_iff_mod_2_eq_zero nat_0 nat_one_as_int not_mod_2_eq_0_eq_1 nat_1)
qed

lemma skip_bounds:
  fixes lo step :: real
  assumes "0 < step"
  shows "real_of_int (\<lceil>lo / step\<rceil> - 1) * step < lo"
    and "lo \<le> real_of_int (\<lceil>lo / step\<rceil> - 1) * step + step"
proof -
  have "real_of_int (\<lceil>lo / step\<rceil> - 1) < lo / step" by linarith
  then show "real_of_int (\<lceil>lo / step\<rceil> - 1) * step < lo"
    using assms by (simp only: pos_less_divide_eq)
  have "lo / step \<le> real_of_int (\<lceil>lo / step\<rceil> - 1) + 1" by linarith
  then have "lo \<le> (real_of_int (\<lceil>lo / step\<rceil> - 1) + 1) * step"
    using assms by (simp only: pos_divide_le_eq)
  then show "lo \<le> real_of_int (\<lceil>lo / step\<rceil> - 1) * step + step"
    by (simp add: algebra_simps)
qed

lemma create_hexgrid_first:
  fixes b0 b1 b2 b3 side :: real
  assumes "0 < side"
  defines "h_skip \<equiv> \<lceil>min b0 b2 / (1.5 * side)\<rceil> - 1"
    and "v_skip \<equiv> \<lceil>min b1 b3 / (sqrt 3 * side)\<rceil> - 1"
  shows "first_center (create_hexgrid (b0, b1, b2, b3) side) =
           Some (real_of_int h_skip * (1.5 * side),
                 if even h_skip then real_of_int v_skip * (sqrt 3 * side) + sqrt 3 * side / 2
                 else real_of_int v_skip * (sqrt 3 * side))"
proof -
  let ?h = "1.5 * side" and ?v = "sqrt 3 * side"
  let ?arr = "[real_of_int v_skip * ?v + ?v / 2, real_of_int v_skip * ?v]"
  let ?i = "nat (\<bar>h_skip\<bar> mod 2)"
  have hp: "0 < ?h" and vp: "0 < ?v" using assms(1) by simp_all
  have x: "real_of_int h_skip * ?h < min b0 b2"
    unfolding h_skip_def by (rule skip_bounds(1)[OF hp])
  have y: "real_of_int v_skip * ?v < min b1 b3"
    unfolding v_skip_def by (rule skip_bounds(1)[OF vp])
  have i: "?i = (if even h_skip then 0 else 1)"
    by (rule abs_parity)
  have cx: "real_of_int h_skip * ?h < max b0 b2 + ?h" using x hp by linarith
  have cy: "?arr ! ?i < max b1 b3 + ?v" using y vp by (simp add: i) linarith
  note hd = columns_hd[OF hp vp cx cy, of "(?i + 1) mod 2" ?arr]
  obtain p ps where ps: "columns (nat \<lceil>(max b0 b2 + ?h - real_of_int h_skip * ?h) / ?h\<rceil>)
        (real_of_int h_skip * ?h) (?arr ! ?i) ((?i + 1) mod 2) (max b1 b3 + ?v) ?h ?v ?arr = p # ps"
    using hd by (cases "columns (nat \<lceil>(max b0 b2 + ?h - real_of_int h_skip * ?h) / ?h\<rceil>)
        (real_of_int h_skip * ?h) (?arr ! ?i) ((?i + 1) mod 2) (max b1 b3 + ?v) ?h ?v ?arr") auto
  with hd have p: "p = (real_of_int h_skip * ?h, ?arr ! ?i)" by simp
  have "first_center (create_hexgrid (b0, b1, b2, b3) side) = Some p"
    unfolding create_hexgrid_pos[OF assms(1)] h_skip_def[symmetric] v_skip_def[symmetric] ps
    by (simp add: first_center_def)
  then show ?thesis unfolding p by (simp add: i)
qed



lemma create_planning_unit_grid_nonempty:
  assumes "Area \<noteq> 0"
  shows "\<exists>grid. create_planning_unit_grid box Area = Some (Inr grid) \<and> grid \<noteq> []"
proof -
  let ?edge = "sqrt (Area\<^sup>2 / (3 / 2 * sqrt 3))"
  obtain b0 b1 b2 b3 where b: "box = (b0, b1, b2, b3)" by (cases box) auto
  from create_hexgrid_returns[OF edge_pos[OF assms]]
  obtain centers where c: "create_hexgrid box ?edge = Some (Inr centers)" by blast
  have "first_center (create_hexgrid box ?edge) \<noteq> None"
    unfolding b using create_hexgrid_first[OF edge_pos[OF assms]] by simp
  then have "centers \<noteq> []" unfolding c first_center_def by auto
  then show ?thesis by (simp add: create_planning_unit_grid_returns[OF c])
qed

text \<open>A run by hand: the unit box with edge length 1 gets three columns of three centers.\<close>


lemma sqrt3_bounds: "1 < sqrt 3" "sqrt 3 < 2"
proof -
  have "sqrt 1 < sqrt 3" by simp
  then show "1 < sqrt 3" by simp
  show "sqrt 3 < 2" by (rule real_less_lsqrt) simp_all
qed

lemma inv_sqrt3_bounds: "1 / 2 < 1 / sqrt 3" "1 / sqrt 3 < 1"
proof -
  show "1 / 2 < 1 / sqrt 3"
    using sqrt3_bounds by (intro divide_strict_left_mono) simp_all
  show "1 / sqrt 3 < 1" using sqrt3_bounds by simp
qed

lemma upt_3: "[0..<3] = [0, 1, 2]"
  by (simp add: numeral_3_eq_3)

lemma column_full:
  "column_pts x (- sqrt 3) (1 + sqrt 3) (sqrt 3) = [(x, - sqrt 3), (x, 0), (x, sqrt 3)]"
proof -
  have e: "(1 + sqrt 3 - - sqrt 3) / sqrt 3 = 1 / sqrt 3 + 2"
    using sqrt3_bounds by (simp add: field_simps)
  have "\<lceil>1 / sqrt 3 + 2\<rceil> = 3"
  proof (rule ceiling_unique)
    have "2 < 1 / sqrt 3 + 2" "1 / sqrt 3 + 2 \<le> 3" using inv_sqrt3_bounds by linarith+
    then show "real_of_int 3 - 1 < 1 / sqrt 3 + 2" "1 / sqrt 3 + 2 \<le> real_of_int 3"
      by simp_all
  qed
  then have "nat \<lceil>(1 + sqrt 3 - - sqrt 3) / sqrt 3\<rceil> = 3" unfolding e by simp
  then show ?thesis by (simp add: column_pts_def upt_3)
qed

lemma column_half:
  "column_pts x (- (sqrt 3 / 2)) (1 + sqrt 3) (sqrt 3)
   = [(x, - (sqrt 3 / 2)), (x, sqrt 3 / 2), (x, 3 * sqrt 3 / 2)]"
proof -
  have e: "(1 + sqrt 3 - - (sqrt 3 / 2)) / sqrt 3 = 1 / sqrt 3 + 3 / 2"
    using sqrt3_bounds by (simp add: field_simps)
  have "\<lceil>1 / sqrt 3 + 3 / 2\<rceil> = 3"
  proof (rule ceiling_unique)
    have "2 < 1 / sqrt 3 + 3 / 2" "1 / sqrt 3 + 3 / 2 \<le> 3" using inv_sqrt3_bounds by linarith+
    then show "real_of_int 3 - 1 < 1 / sqrt 3 + 3 / 2" "1 / sqrt 3 + 3 / 2 \<le> real_of_int 3"
      by simp_all
  qed
  then have "nat \<lceil>(1 + sqrt 3 - - (sqrt 3 / 2)) / sqrt 3\<rceil> = 3" unfolding e by simp
  then show ?thesis by (simp add: column_pts_def upt_3)
qed

lemma create_hexgrid_unit_box:
  "create_hexgrid (0, 0, 1, 1) 1 =
     Some (Inr [(- 3 / 2, - sqrt 3), (- 3 / 2, 0), (- 3 / 2, sqrt 3),
                (0, - (sqrt 3 / 2)), (0, sqrt 3 / 2), (0, 3 * sqrt 3 / 2),
                (3 / 2, - sqrt 3), (3 / 2, 0), (3 / 2, sqrt 3)])"
  unfolding create_hexgrid_pos[where side = 1 and ?b0.0 = 0 and ?b1.0 = 0 and ?b2.0 = 1 and ?b3.0 = 1,
        OF zero_less_one]
  by (simp add: numeral_3_eq_3 column_full column_half)

section \<open>Claims about the grid builder\<close>

text \<open>
  Claim C10.  For every bounding box, in any corner order, and every edge length
  \<open>side > 0\<close>, \<open>create_hexgrid\<close> terminates: both nested loops run finitely often
  and the function returns a (finite) list of centers, raising nothing.  Stated over exact
  real arithmetic, where a positive step always advances the loop variable.
\<close>

theorem create_hexgrid_terminates:
  "0 < side \<Longrightarrow> \<exists>grid. create_hexgrid bbx side = Some (Inr grid)"
  using create_hexgrid_returns by blast

theorem create_hexgrid_terminates_witness:
  "0 < (1::real) \<and> (\<exists>grid. create_hexgrid (0, 0, 1, 1) 1 = Some (Inr grid))
   \<and> create_hexgrid (0, 0, 1, 1) 1 =
       Some (Inr [(- 3 / 2, - sqrt 3), (- 3 / 2, 0), (- 3 / 2, sqrt 3),
                  (0, - (sqrt 3 / 2)), (0, sqrt 3 / 2), (0, 3 * sqrt 3 / 2),
                  (3 / 2, - sqrt 3), (3 / 2, 0), (3 / 2, sqrt 3)])"
  using create_hexgrid_terminates[of 1 "(0, 0, 1, 1)"] create_hexgrid_unit_box by simp

text \<open>
  Claim C6, as amended.  For a positive edge length the first center emitted lies in the
  column \<open>k * h_step\<close>, the largest multiple of \<open>h_step = 1.5 * side\<close> strictly below
  \<open>x_min\<close> (so \<open>x_min\<close> is at most one step to its right), and its row is
  \<open>j * v_step\<close>, the largest multiple of \<open>v_step = sqrt 3 * side\<close> strictly below
  \<open>y_min\<close>, raised by half a step when \<open>k\<close> is even.
\<close>

theorem hexgrid_first_center:
  assumes "0 < side"
  shows "\<exists>k j. first_center (create_hexgrid (b0, b1, b2, b3) side) =
                  Some (real_of_int k * (1.5 * side),
                        if even k then real_of_int j * (sqrt 3 * side) + sqrt 3 * side / 2
                        else real_of_int j * (sqrt 3 * side))
             \<and> real_of_int k * (1.5 * side) < min b0 b2
             \<and> min b0 b2 \<le> real_of_int k * (1.5 * side) + 1.5 * side
             \<and> real_of_int j * (sqrt 3 * side) < min b1 b3
             \<and> min b1 b3 \<le> real_of_int j * (sqrt 3 * side) + sqrt 3 * side"
proof -
  have hp: "0 < 1.5 * side" and vp: "0 < sqrt 3 * side" using assms by simp_all
  show ?thesis
    using create_hexgrid_first[OF assms, where ?b0.0 = b0 and ?b1.0 = b1 and ?b2.0 = b2 and ?b3.0 = b3]
      skip_bounds[OF hp, of "min b0 b2"] skip_bounds[OF vp, of "min b1 b3"]
    by blast
qed

theorem hexgrid_first_center_witness:
  "0 < (1::real) \<and>
   (\<exists>k j. first_center (create_hexgrid (1, 0, 2, 1) 1) =
                  Some (real_of_int k * (1.5 * 1),
                        if even k then real_of_int j * (sqrt 3 * 1) + sqrt 3 * 1 / 2
                        else real_of_int j * (sqrt 3 * 1))
             \<and> real_of_int k * (1.5 * 1) < min 1 2
             \<and> min 1 2 \<le> real_of_int k * (1.5 * 1) + 1.5 * 1
             \<and> real_of_int j * (sqrt 3 * 1) < min 0 1
             \<and> min 0 1 \<le> real_of_int j * (sqrt 3 * 1) + sqrt 3 * 1)"
  using hexgrid_first_center[where side = 1 and ?b0.0 = 1 and ?b1.0 = 0 and ?b2.0 = 2 and ?b3.0 = 1] by simp

text \<open>
  Claim C6 as the specification words it fails when \<open>x_min\<close> is not a multiple of
  \<open>h_step\<close>: for the box \<open>(1, 0, 2, 1)\<close> and \<open>side = 1\<close> the first column is at
  \<open>x = 0\<close>, while the largest multiple of \<open>1.5\<close> at or below \<open>1\<close>, minus one step,
  is \<open>-1.5\<close>.
\<close>

theorem hexgrid_start_counterexample:
  "map_option fst (first_center (create_hexgrid (1, 0, 2, 1) 1)) = Some 0
   \<and> spec_h_start (min 1 2) (1.5 * 1) = - 3 / 2
   \<and> map_option fst (first_center (create_hexgrid (1, 0, 2, 1) 1))
       \<noteq> Some (spec_h_start (min 1 2) (1.5 * 1))"
proof -
  have a: "map_option fst (first_center (create_hexgrid (1, 0, 2, 1) 1)) = Some 0"
    using create_hexgrid_first[where side = 1 and ?b0.0 = 1 and ?b1.0 = 0 and ?b2.0 = 2 and ?b3.0 = 1] by simp
  have b: "spec_h_start (min 1 2) (1.5 * 1) = - 3 / 2"
    by (simp add: spec_h_start_def)
  show ?thesis unfolding a b by simp
qed
text \<open>
  Claim C7.  For a positive edge length the centers come out in nested-loop order: the
  list is strictly ascending in x from column to column and strictly ascending in y
  inside a column (\<open>loop_order\<close> between any earlier and any later center).  The grid
  builder gives the hexagon around the \<open>i\<close>-th center (counting from 0) the PUID
  \<open>i + 1\<close>, so PUIDs follow the production order.
\<close>

theorem hexgrid_nested_loop_order:
  "(0 < side \<longrightarrow>
      (\<exists>centers. create_hexgrid bbx side = Some (Inr centers) \<and> sorted_wrt loop_order centers))
   \<and> (Area \<noteq> 0 \<longrightarrow>
      (\<exists>centers. create_hexgrid box (sqrt (Area\<^sup>2 / (3 / 2 * sqrt 3))) = Some (Inr centers)
         \<and> sorted_wrt loop_order centers
         \<and> create_planning_unit_grid box Area =
             Some (Inr (map (\<lambda>i. \<lparr>geometry = create_hexagon (sqrt (Area\<^sup>2 / (3 / 2 * sqrt 3)))
                                                (fst (centers ! i)) (snd (centers ! i)),
                                    PUID = int i + 1\<rparr>) [0..<length centers]))))"
proof (intro conjI impI)
  assume "0 < side"
  then show "\<exists>centers. create_hexgrid bbx side = Some (Inr centers) \<and> sorted_wrt loop_order centers"
    by (rule create_hexgrid_returns)
next
  assume "Area \<noteq> 0"
  from create_hexgrid_returns[OF edge_pos[OF this]]
  obtain centers where c: "create_hexgrid box (sqrt (Area\<^sup>2 / (3 / 2 * sqrt 3))) = Some (Inr centers)"
    and s: "sorted_wrt loop_order centers" by blast
  from c s create_planning_unit_grid_returns[OF c]
  show "\<exists>centers. create_hexgrid box (sqrt (Area\<^sup>2 / (3 / 2 * sqrt 3))) = Some (Inr centers)
         \<and> sorted_wrt loop_order centers
         \<and> create_planning_unit_grid box Area =
             Some (Inr (map (\<lambda>i. \<lparr>geometry = create_hexagon (sqrt (Area\<^sup>2 / (3 / 2 * sqrt 3)))
                                                (fst (centers ! i)) (snd (centers ! i)),
                                    PUID = int i + 1\<rparr>) [0..<length centers]))"
    by blast
qed

theorem hexgrid_nested_loop_order_witness:
  "0 < (1::real)
   \<and> (\<exists>centers. create_hexgrid (0, 0, 1, 1) 1 = Some (Inr centers) \<and> sorted_wrt loop_order centers)
   \<and> (2::real) \<noteq> 0
   \<and> (\<exists>centers. create_hexgrid (0, 0, 1, 1) (sqrt (2\<^sup>2 / (3 / 2 * sqrt 3))) = Some (Inr centers)
         \<and> sorted_wrt loop_order centers
         \<and> create_planning_unit_grid (0, 0, 1, 1) 2 =
             Some (Inr (map (\<lambda>i. \<lparr>geometry = create_hexagon (sqrt (2\<^sup>2 / (3 / 2 * sqrt 3)))
                                                (fst (centers ! i)) (snd (centers ! i)),
                                    PUID = int i + 1\<rparr>) [0..<length centers])))"
  using hexgrid_nested_loop_order[of 1 "(0, 0, 1, 1)" 2 "(0, 0, 1, 1)"] by simp

text \<open>
  Claim C8.  In every grid the builder returns, the PUID column is exactly
  \<open>1, 2, ..., N\<close> for the \<open>N\<close> emitted cells, without duplicates.
\<close>

theorem puid_dense:
  assumes "create_planning_unit_grid box Area = Some (Inr grid)"
  shows "map PUID grid = [1..int (length grid)] \<and> distinct (map PUID grid)"
proof -
  from assms obtain centers where
    g: "grid = map (\<lambda>i. \<lparr>geometry = create_hexagon (sqrt (Area\<^sup>2 / (3 / 2 * sqrt 3)))
                                       (fst (centers ! i)) (snd (centers ! i)),
                           PUID = int i + 1\<rparr>) [0..<length centers]"
    by (rule create_planning_unit_grid_cases)
  have "map PUID grid = map (\<lambda>i. int i + 1) [0..<length centers]"
    unfolding g by (simp add: comp_def)
  also have "\<dots> = [1..int (length centers)]" by (rule puid_upto)
  finally have m: "map PUID grid = [1..int (length grid)]" by (simp add: g)
  show ?thesis unfolding m by simp
qed

theorem puid_dense_witness:
  "\<exists>grid. create_planning_unit_grid (0, 0, 1, 1) 2 = Some (Inr grid) \<and> grid \<noteq> []
     \<and> map PUID grid = [1..int (length grid)] \<and> distinct (map PUID grid)"
proof -
  obtain grid where g: "create_planning_unit_grid (0, 0, 1, 1) 2 = Some (Inr grid)" "grid \<noteq> []"
    using create_planning_unit_grid_nonempty[of 2 "(0, 0, 1, 1)"] by auto
  from g puid_dense[OF g(1)] show ?thesis by blast
qed

text \<open>
  Claim C1, evaluated on the code.  Every emitted hexagon has 6 vertices, but its area is
  the square of the requested cell area, not the cell area: the edge length is computed
  from \<open>Area**2\<close>.  For \<open>Area = 2\<close> each hexagon has area 4.
\<close>

theorem hexagon_area_is_square_of_input:
  assumes "create_planning_unit_grid box Area = Some (Inr grid)" and "c \<in> set grid"
  shows "length (geometry c) = 6 \<and> polygon_area (geometry c) = Area\<^sup>2"
proof -
  from assms(1) obtain centers where
    g: "grid = map (\<lambda>i. \<lparr>geometry = create_hexagon (sqrt (Area\<^sup>2 / (3 / 2 * sqrt 3)))
                                       (fst (centers ! i)) (snd (centers ! i)),
                           PUID = int i + 1\<rparr>) [0..<length centers]"
    by (rule create_planning_unit_grid_cases)
  from assms(2) obtain x y where
    "geometry c = create_hexagon (sqrt (Area\<^sup>2 / (3 / 2 * sqrt 3))) x y"
    unfolding g by auto
  then show ?thesis
    by (simp only: create_hexagon_length create_hexagon_area edge_area)
qed

theorem hexagon_area_is_square_of_input_witness:
  "\<exists>grid. create_planning_unit_grid (0, 0, 1, 1) 2 = Some (Inr grid) \<and> hd grid \<in> set grid
     \<and> length (geometry (hd grid)) = 6 \<and> polygon_area (geometry (hd grid)) = 4
     \<and> polygon_area (geometry (hd grid)) \<noteq> 2"
proof -
  obtain grid where g: "create_planning_unit_grid (0, 0, 1, 1) 2 = Some (Inr grid)" "grid \<noteq> []"
    using create_planning_unit_grid_nonempty[of 2 "(0, 0, 1, 1)"] by auto
  have h: "hd grid \<in> set grid" using g(2) by simp
  from hexagon_area_is_square_of_input[OF g(1) h] g(1) h show ?thesis by auto
qed
section \<open>Properties of the overlap engine\<close>

lemma clip_error: "clip lib cs hulls = Inl e \<Longrightarrow> e = GeometryError"
  by (induction cs arbitrary: e) (auto split: if_splits option.splits sum.splits)

lemma intersect_feature_error: "intersect_feature lib cs f = Inl e \<Longrightarrow> e = GeometryError"
  by (induction cs arbitrary: e) (auto split: if_splits option.splits sum.splits)

lemma intersect_rows_error: "intersect_rows lib cs fs = Inl e \<Longrightarrow> e = GeometryError"
  by (induction fs arbitrary: e) (auto split: sum.splits dest: intersect_feature_error)

lemma overlay_error: "overlay lib cs layer = Inl e \<Longrightarrow> e = GeometryError"
  by (auto simp: overlay_def split: if_splits list.splits sum.splits dest: intersect_rows_error)

lemma unit_of_work_error: "unit_of_work lib cs layer = Inl e \<Longrightarrow> e = GeometryError"
  by (auto simp: unit_of_work_def split: sum.splits dest: clip_error overlay_error)

lemma units_error: "units lib pg layers = Inl e \<Longrightarrow> e = GeometryError"
  by (induction layers arbitrary: e) (auto split: if_splits sum.splits dest: unit_of_work_error)

lemma calculate_loop_units:
  "snd (calculate_loop lib pg layers w acc) =
     (case units lib pg layers of Inl e \<Rightarrow> Inl e | Inr frames \<Rightarrow> Inr (acc @ frames))"
proof (induction layers arbitrary: w acc)
  case Nil
  show ?case by simp
next
  case (Cons layer rest)
  show ?case
  proof (cases "layer = []")
    case True
    then show ?thesis using Cons.IH by simp
  next
    case False
    then show ?thesis
      using Cons.IH
      by (simp add: unit_of_work_def split: sum.splits)
  qed
qed

lemma calculate_units: "snd (calculate lib pg layers) = units lib pg layers"
  by (simp add: calculate_def calculate_loop_units split: sum.splits)

lemma units_fail_iff:
  "isl (units lib pg layers) \<longleftrightarrow> (\<exists>layer \<in> set layers. layer \<noteq> [] \<and> isl (unit_of_work lib pg layer))"
  by (induction layers) (auto split: sum.splits)

lemma sections_length: "length (sections ns xs) = length ns"
  by (induction ns arbitrary: xs) simp_all

lemma sections_concat: "concat (sections ns xs) = take (sum_list ns) xs"
proof (induction ns arbitrary: xs)
  case Nil
  show ?case by simp
next
  case (Cons n ns)
  have "take n xs @ take (sum_list ns) (drop n xs) = take (n + sum_list ns) xs"
    by (simp add: take_add)
  then show ?case by (simp add: Cons.IH)
qed

lemma array_split_sizes:
  assumes "0 < k"
  shows "sum_list (replicate (n mod k) (n div k + 1) @ replicate (k - n mod k) (n div k)) = n"
proof -
  have lt: "n mod k < k" using assms by simp
  have "(n mod k) * (n div k + 1) + (k - n mod k) * (n div k)
        = n mod k + (n mod k + (k - n mod k)) * (n div k)"
    by (simp add: algebra_simps)
  also have "n mod k + (k - n mod k) = k" using lt by simp
  also have "n mod k + k * (n div k) = n" by simp
  finally show ?thesis by (simp add: sum_list_replicate)
qed

lemma array_split_ok:
  assumes "0 < k"
  obtains parts where "array_split xs k = Inr parts" "length parts = k" "concat parts = xs"
proof -
  let ?ns = "replicate (length xs mod k) (length xs div k + 1)
               @ replicate (k - length xs mod k) (length xs div k)"
  have a: "array_split xs k = Inr (sections ?ns xs)" using assms by (simp add: array_split_def)
  have lt: "length xs mod k < k" using assms by simp
  have l: "length (sections ?ns xs) = k" using lt by (simp add: sections_length)
  have c: "concat (sections ?ns xs) = xs"
    by (simp only: sections_concat array_split_sizes[OF assms]) simp
  from a l c show ?thesis by (rule that)
qed

lemma py_round_int: "py_round (real_of_int n) = n"
  by (simp add: py_round_def)

lemma py_round_0_1: "py_round 0 = 0" "py_round 1 = 1"
  using py_round_int[of 0] py_round_int[of 1] by simp_all

lemma array_split_3_2: "array_split [a, b, c] 2 = Inr [[a, b], [c]]"
proof -
  have "replicate (2 - Suc 0) (Suc 0) = [Suc 0]" by (simp add: numeral_2_eq_2)
  then show ?thesis by (simp add: array_split_def)
qed

lemma array_split_2_2: "array_split [a, b] 2 = Inr [[a], [b]]"
proof -
  have "replicate 2 (Suc 0) = [Suc 0, Suc 0]" by (simp add: numeral_2_eq_2)
  then show ?thesis by (simp add: array_split_def)
qed

lemma array_split_1: "array_split xs (Suc 0) = Inr [xs]" "array_split xs 1 = Inr [xs]"
  by (simp_all add: array_split_def)

lemma py_round_nearest: "\<bar>real_of_int (py_round x) - x\<bar> \<le> 1 / 2"
proof -
  have "real_of_int \<lfloor>x\<rfloor> \<le> x" "x < real_of_int \<lfloor>x\<rfloor> + 1" by linarith+
  then show ?thesis by (auto simp: py_round_def Let_def)
qed

lemma units_char:
  "units lib p layers =
     (if \<exists>layer \<in> set layers. layer \<noteq> [] \<and> isl (unit_of_work lib p layer)
      then Inl GeometryError
      else Inr (map (\<lambda>layer. projr (unit_of_work lib p layer))
                  (filter (\<lambda>layer. layer \<noteq> []) layers)))"
  by (induction layers) (auto split: sum.splits dest: unit_of_work_error units_error)

lemma extend_results_char:
  assumes "\<forall>e. Inl e \<in> set rs \<longrightarrow> e = GeometryError"
  shows "extend_results rs acc =
           (if \<exists>r \<in> set rs. isl r then Inl GeometryError
            else Inr (acc @ concat (map projr rs)))"
  using assms
proof (induction rs arbitrary: acc)
  case Nil
  show ?case by simp
next
  case (Cons r rs)
  show ?case
  proof (cases r)
    case (Inl e)
    with Cons.prems have "e = GeometryError" by simp
    with Inl show ?thesis by simp
  next
    case (Inr res)
    have "extend_results rs (acc @ res) =
           (if \<exists>r \<in> set rs. isl r then Inl GeometryError
            else Inr ((acc @ res) @ concat (map projr rs)))"
      using Cons.prems by (intro Cons.IH) simp
    with Inr show ?thesis by simp
  qed
qed

lemma calculate_overlap_char:
  assumes a: "array_split planning_grid CORES = Inr parts"
    and perm: "mset order = mset [0..<CORES]"
    and ne: "cons_layers \<noteq> []" "planning_grid \<noteq> []"
  shows "snd (calculate_overlap lib CORES order planning_grid cons_layers) =
     (if \<exists>p \<in> set parts. \<exists>layer \<in> set cons_layers.
           layer \<noteq> [] \<and> isl (unit_of_work lib p layer)
      then Inl GeometryError
      else Inr (concat (map (\<lambda>i. map (\<lambda>layer. projr (unit_of_work lib (parts ! i) layer))
                                    (filter (\<lambda>layer. layer \<noteq> []) cons_layers)) order)))"
proof -
  have k: "0 < CORES" using a by (cases "CORES = 0") (simp_all add: array_split_def)
  obtain parts' where "array_split planning_grid CORES = Inr parts'" "length parts' = CORES"
    by (rule array_split_ok[OF k])
  with a have l: "length parts = CORES" by simp
  let ?f = "\<lambda>i. units lib (parts ! i) cons_layers"
  have snd_eq: "snd (calculate_overlap lib CORES order planning_grid cons_layers)
        = extend_results (map ?f order) []"
    using ne by (simp add: calculate_overlap_def a Let_def comp_def calculate_units)
  have err: "\<forall>e. Inl e \<in> set (map ?f order) \<longrightarrow> e = GeometryError"
    by (auto dest: units_error[OF sym])
  have "set order = set [0..<CORES]" using perm by (rule mset_eq_setD)
  then have so: "set order = {0..<length parts}" by (simp add: l)
  have img: "(\<lambda>i. parts ! i) ` set order = set parts"
    unfolding so by (simp add: nth_image[of "length parts" parts, simplified])
  have fail: "(\<exists>r \<in> set (map ?f order). isl r)
      \<longleftrightarrow> (\<exists>p \<in> set parts. \<exists>layer \<in> set cons_layers.
             layer \<noteq> [] \<and> isl (unit_of_work lib p layer))"
  proof -
    have "(\<exists>r \<in> set (map ?f order). isl r)
          \<longleftrightarrow> (\<exists>p \<in> (\<lambda>i. parts ! i) ` set order. isl (units lib p cons_layers))"
      by auto
    also have "\<dots> \<longleftrightarrow> (\<exists>p \<in> set parts. isl (units lib p cons_layers))"
      by (simp only: img)
    finally show ?thesis by (simp add: units_fail_iff)
  qed
  have ok: "concat (map projr (map ?f order))
      = concat (map (\<lambda>i. map (\<lambda>layer. projr (unit_of_work lib (parts ! i) layer))
                                    (filter (\<lambda>layer. layer \<noteq> []) cons_layers)) order)"
    if "\<not> (\<exists>r \<in> set (map ?f order). isl r)"
  proof -
    have "projr (?f i) = map (\<lambda>layer. projr (unit_of_work lib (parts ! i) layer))
                                    (filter (\<lambda>layer. layer \<noteq> []) cons_layers)"
      if "i \<in> set order" for i
    proof -
      have "\<not> isl (?f i)" using that \<open>\<not> (\<exists>r \<in> set (map ?f order). isl r)\<close> by auto
      then show ?thesis by (subst units_char) (auto simp: units_fail_iff split: if_splits)
    qed
    then show ?thesis by (simp add: comp_def cong: map_cong)
  qed
  show ?thesis
    unfolding snd_eq extend_results_char[OF err]
    using fail ok by (auto simp del: set_map)
qed

lemma astype_int64_small: "astype_int64 0 = 0" "astype_int64 1 = 1" "astype_int64 2 = 2"
  by (simp_all add: astype_int64_def)

lemmas box_eval = calculate_overlap_def array_split_3_2 array_split_2_2 array_split_1
  calculate_def box_geo_def overlay_def mixed_def
  set_amount_def py_round_int py_round_0_1 astype_int64_small unit_of_work_def direct_unit_def Let_def

subsection \<open>Sections of the grid against the whole grid\<close>


















subsection \<open>Point sets as geometries\<close>



















section \<open>Claims about the overlap engine\<close>

text \<open>
  Claim C3.  With an empty list of layers, or an empty planning grid, \<open>calculate_overlap\<close>
  returns an empty collection, prints one warning that names the condition, and raises
  nothing, whatever the number of cores.
\<close>

theorem empty_input_returns_empty:
  assumes "cons_layers = [] \<or> planning_grid = []"
  shows "snd (calculate_overlap lib CORES order planning_grid cons_layers) = Inr []
       \<and> fst (calculate_overlap lib CORES order planning_grid cons_layers)
           = [if cons_layers = [] then ''No conservation feature layers loaded.''
              else ''No planning unit grid loaded.'']"
  using assms by (auto simp: calculate_overlap_def)

theorem empty_input_returns_empty_witness:
  "(([] :: shape feature list list) = [] \<or> [\<lparr>geometry = Box 0 0 1 1, PUID = 1\<rparr>] = [])
   \<and> snd (calculate_overlap box_geo 0 [] [\<lparr>geometry = Box 0 0 1 1, PUID = 1\<rparr>] []) = Inr []
   \<and> fst (calculate_overlap box_geo 0 [] [\<lparr>geometry = Box 0 0 1 1, PUID = 1\<rparr>] [])
       = [''No conservation feature layers loaded.'']
   \<and> ([[\<lparr>fgeometry = Box 0 0 2 2, ID = 7\<rparr>]] = [] \<or> ([] :: shape cell list) = [])
   \<and> snd (calculate_overlap box_geo 4 [2, 0, 3, 1] [] [[\<lparr>fgeometry = Box 0 0 2 2, ID = 7\<rparr>]])
       = Inr []
   \<and> fst (calculate_overlap box_geo 4 [2, 0, 3, 1] [] [[\<lparr>fgeometry = Box 0 0 2 2, ID = 7\<rparr>]])
       = [''No planning unit grid loaded.'']"
  using empty_input_returns_empty[of "[]" "[\<lparr>geometry = Box 0 0 1 1, PUID = 1\<rparr>]" box_geo 0 "[]"]
    empty_input_returns_empty[of "[[\<lparr>fgeometry = Box 0 0 2 2, ID = 7\<rparr>]]" "[]" box_geo 4
      "[2, 0, 3, 1]"]
  by simp

text \<open>
  Claim C5, as amended.  A failure is not contained.  When the clip or the overlay of any
  (partition, layer) unit fails, \<open>calculate_overlap\<close> raises and returns no record; only
  when no unit fails does it return the frames of all units, partition by partition in
  the order of completion.
\<close>

theorem worker_failure_ends_the_call:
  assumes "array_split planning_grid CORES = Inr parts"
    and "mset order = mset [0..<CORES]"
    and "cons_layers \<noteq> []" and "planning_grid \<noteq> []"
  shows "snd (calculate_overlap lib CORES order planning_grid cons_layers) =
     (if \<exists>p \<in> set parts. \<exists>layer \<in> set cons_layers.
           layer \<noteq> [] \<and> isl (unit_of_work lib p layer)
      then Inl GeometryError
      else Inr (concat (map (\<lambda>i. map (\<lambda>layer. projr (unit_of_work lib (parts ! i) layer))
                                    (filter (\<lambda>layer. layer \<noteq> []) cons_layers)) order)))"
  using assms by (rule calculate_overlap_char)

theorem worker_failure_ends_the_call_witness:
  "array_split [\<lparr>geometry = Box 0 0 1 1, PUID = 1\<rparr>, \<lparr>geometry = Box 1 0 2 1, PUID = 2\<rparr>] 2
     = Inr [[\<lparr>geometry = Box 0 0 1 1, PUID = 1\<rparr>], [\<lparr>geometry = Box 1 0 2 1, PUID = 2\<rparr>]]
   \<and> mset [1, 0] = mset [0..<2]
   \<and> [[\<lparr>fgeometry = Box 0 0 2 2, ID = 7\<rparr>]] \<noteq> []
   \<and> [\<lparr>geometry = Box 0 0 1 1, PUID = 1\<rparr>, \<lparr>geometry = Box 1 0 2 1, PUID = 2\<rparr>] \<noteq> []
   \<and> snd (calculate_overlap box_geo 2 [1, 0]
          [\<lparr>geometry = Box 0 0 1 1, PUID = 1\<rparr>, \<lparr>geometry = Box 1 0 2 1, PUID = 2\<rparr>]
          [[\<lparr>fgeometry = Box 0 0 2 2, ID = 7\<rparr>]])
     = Inr [[\<lparr>oPUID = 2, oID = 7, ogeometry = Box 1 0 2 1, AMOUNT = 1\<rparr>],
            [\<lparr>oPUID = 1, oID = 7, ogeometry = Box 0 0 1 1, AMOUNT = 1\<rparr>]]"
proof -
  let ?grid = "[\<lparr>geometry = Box 0 0 1 1, PUID = 1\<rparr>, \<lparr>geometry = Box 1 0 2 1, PUID = 2\<rparr>]"
  let ?layers = "[[\<lparr>fgeometry = Box 0 0 2 2, ID = 7\<rparr>]]"
  have a: "array_split ?grid 2
     = Inr [[\<lparr>geometry = Box 0 0 1 1, PUID = 1\<rparr>], [\<lparr>geometry = Box 1 0 2 1, PUID = 2\<rparr>]]"
    by (rule array_split_2_2)
  have p: "mset [1, 0] = mset [0..<2]" by (simp add: numeral_2_eq_2)
  have n: "?layers \<noteq> []" "?grid \<noteq> []" by simp_all
  have u: "unit_of_work box_geo [\<lparr>geometry = Box 0 0 1 1, PUID = 1\<rparr>] [\<lparr>fgeometry = Box 0 0 2 2, ID = 7\<rparr>]
             = Inr [\<lparr>oPUID = 1, oID = 7, ogeometry = Box 0 0 1 1, AMOUNT = 1\<rparr>]"
    "unit_of_work box_geo [\<lparr>geometry = Box 1 0 2 1, PUID = 2\<rparr>] [\<lparr>fgeometry = Box 0 0 2 2, ID = 7\<rparr>]
             = Inr [\<lparr>oPUID = 2, oID = 7, ogeometry = Box 1 0 2 1, AMOUNT = 1\<rparr>]"
    by (simp_all add: box_eval)
  have "snd (calculate_overlap box_geo 2 [1, 0] ?grid ?layers)
     = Inr [[\<lparr>oPUID = 2, oID = 7, ogeometry = Box 1 0 2 1, AMOUNT = 1\<rparr>],
            [\<lparr>oPUID = 1, oID = 7, ogeometry = Box 0 0 1 1, AMOUNT = 1\<rparr>]]"
    using worker_failure_ends_the_call[OF a p n, of box_geo] by (simp add: u)
  with a p n show ?thesis by blast
qed

text \<open>
  Claim C5 as the specification words it fails: with two workers and a malformed first
  cell, the second partition alone yields a record, yet the call raises and the record is
  lost.
\<close>

theorem worker_failure_counterexample:
  "snd (calculate_overlap box_geo 2 [0, 1]
          [\<lparr>geometry = Malformed, PUID = 1\<rparr>, \<lparr>geometry = Box 0 0 1 1, PUID = 2\<rparr>]
          [[\<lparr>fgeometry = Box 0 0 2 2, ID = 7\<rparr>]])
     = Inl GeometryError
   \<and> array_split [\<lparr>geometry = Malformed, PUID = 1\<rparr>, \<lparr>geometry = Box 0 0 1 1, PUID = 2\<rparr>] 2
     = Inr [[\<lparr>geometry = Malformed, PUID = 1\<rparr>], [\<lparr>geometry = Box 0 0 1 1, PUID = 2\<rparr>]]
   \<and> snd (calculate box_geo [\<lparr>geometry = Box 0 0 1 1, PUID = 2\<rparr>]
            [[\<lparr>fgeometry = Box 0 0 2 2, ID = 7\<rparr>]])
     = Inr [[\<lparr>oPUID = 2, oID = 7, ogeometry = Box 0 0 1 1, AMOUNT = 1\<rparr>]]"
  by (simp add: box_eval)











end
